theory Spec2Isabelle
  imports Main "HOL-Library.Sublist"
begin

section \<open>Python values and string operations\<close>

text \<open>
  The program is \<^verbatim>\<open>wordcamp_favorites.py\<close>. A Python \<^verbatim>\<open>str\<close> is modelled as a
  \<^typ>\<open>string\<close> whose characters are the code points below 256. The values that travel
  through the pipeline are what \<^verbatim>\<open>response.json()\<close> can hold (with JSON numbers
  restricted to integers) and the dictionaries the program builds itself.
  A dictionary is an association list in insertion order whose keys are strings;
  the first binding of a key is the one a lookup finds.
\<close>

datatype pyval =
    PNone
  | PBool bool
  | PInt int
  | PStr string
  | PList "pyval list"
  | PDict "(string \<times> pyval) list"

datatype py_error = AttributeError | TypeError | KeyError | ValueError | OSError

text \<open>\<^verbatim>\<open>str.isspace\<close> on one character, for code points below 256.\<close>

definition is_space :: "char \<Rightarrow> bool" where
  "is_space c =
     (let n = (of_char c :: nat)
      in (9 \<le> n \<and> n \<le> 13) \<or> (28 \<le> n \<and> n \<le> 32) \<or> n = 133 \<or> n = 160)"

text \<open>\<^verbatim>\<open>s.strip()\<close>, \<^verbatim>\<open>s.rstrip(chars)\<close>, \<^verbatim>\<open>s.split(c)\<close>, \<^verbatim>\<open>sep.join(xs)\<close> and
  \<^verbatim>\<open>s.replace(c, new)\<close> for a one-character \<^verbatim>\<open>c\<close>.\<close>

definition strip :: "string \<Rightarrow> string" where
  "strip s = rev (dropWhile is_space (rev (dropWhile is_space s)))"

definition rstrip :: "string \<Rightarrow> string \<Rightarrow> string" where
  "rstrip chars s = rev (dropWhile (\<lambda>c. c \<in> set chars) (rev s))"

fun split_on :: "char \<Rightarrow> string \<Rightarrow> string list" where
  "split_on c [] = [] # []"
| "split_on c (x # xs) =
     (if x = c then [] # split_on c xs
      else (case split_on c xs of [] \<Rightarrow> [x] # [] | t # ts \<Rightarrow> (x # t) # ts))"

fun join :: "string \<Rightarrow> string list \<Rightarrow> string" where
  "join sep [] = []"
| "join sep [x] = x"
| "join sep (x # y # ys) = x @ sep @ join sep (y # ys)"

definition replace :: "char \<Rightarrow> string \<Rightarrow> string \<Rightarrow> string" where
  "replace c new s = concat (map (\<lambda>x. if x = c then new else [x]) s)"

section \<open>URL interpreter\<close>

text \<open>
  \<^verbatim>\<open>urlparse\<close> and \<^verbatim>\<open>parse_qs\<close> belong to \<^verbatim>\<open>urllib\<close>, not to the program: the
  model starts from what they return. \<open>parsed_url\<close> is the result of
  \<^verbatim>\<open>urlparse(schedule_url)\<close>, and \<open>query_params\<close> is the dictionary
  \<^verbatim>\<open>parse_qs(parsed_url.query)\<close>, from a parameter name to the list of its values,
  written as an association list.
  The message printed when there are no favourites is console output and is left out.
\<close>

record parsed_url =
  scheme :: string
  netloc :: string
  path :: string
  params :: string
  query :: string
  fragment :: string

definition extract_favorite_ids :: "(string \<times> string list) list \<Rightarrow> string list" where
  "extract_favorite_ids query_params =
     (let fav_sessions =
        (case map_of query_params ''fav-sessions'' of None \<Rightarrow> [] | Some v \<Rightarrow> v)
      in case fav_sessions of
           [] \<Rightarrow> []
         | v # _ \<Rightarrow> map strip (split_on (CHR '','') v))"

definition get_wordcamp_base_url :: "parsed_url \<Rightarrow> string" where
  "get_wordcamp_base_url p = scheme p @ ''://'' @ netloc p @ rstrip ''/schedule/'' (path p)"

section \<open>Session fetcher\<close>

text \<open>
  The remote API is an oracle: the outcome of the \<open>k\<close>-th call (counted from 0) for a
  request. \<open>Failed\<close> stands for any \<^verbatim>\<open>RequestException\<close> raised by
  \<^verbatim>\<open>requests.get\<close>, \<^verbatim>\<open>raise_for_status\<close> or \<^verbatim>\<open>response.json\<close>; \<open>Returned\<close>
  carries the decoded body, a sequence of records. The state of the loop is the list
  of requests issued so far and the accumulator \<^verbatim>\<open>all_sessions\<close>.
\<close>

datatype outcome = Failed | Returned "pyval list"

record request =
  req_url :: string
  req_include :: string

record fetch_state =
  calls :: "request list"
  all_sessions :: "pyval list"

definition chunk_size :: nat where
  "chunk_size = 10"

text \<open>\<^verbatim>\<open>range(i, stop, chunk_size)\<close>.\<close>

function chunk_starts :: "nat \<Rightarrow> nat \<Rightarrow> nat list" where
  "chunk_starts i stop = (if i < stop then i # chunk_starts (i + chunk_size) stop else [])"
  by pat_completeness auto
termination
  by (relation "measure (\<lambda>(i, stop). stop - i)") (auto simp: chunk_size_def)

declare chunk_starts.simps [simp del]

definition fetch_step ::
  "(nat \<Rightarrow> request \<Rightarrow> outcome) \<Rightarrow> string \<Rightarrow> string list \<Rightarrow> nat \<Rightarrow> fetch_state \<Rightarrow> fetch_state" where
  "fetch_step api api_url session_ids i st =
     (let chunk = take chunk_size (drop i session_ids);
          req = \<lparr>req_url = api_url, req_include = join '','' chunk\<rparr>
      in case api (length (calls st)) req of
           Returned sessions \<Rightarrow>
             \<lparr>calls = calls st @ [req], all_sessions = all_sessions st @ sessions\<rparr>
         | Failed \<Rightarrow>
             \<lparr>calls = calls st @ [req], all_sessions = all_sessions st\<rparr>)"

definition fetch_loop ::
  "(nat \<Rightarrow> request \<Rightarrow> outcome) \<Rightarrow> string \<Rightarrow> string list \<Rightarrow> fetch_state" where
  "fetch_loop api base_url session_ids =
     fold (fetch_step api (base_url @ ''/wp-json/wp/v2/sessions'') session_ids)
       (chunk_starts 0 (length session_ids))
       \<lparr>calls = [], all_sessions = []\<rparr>"

definition fetch_session_data ::
  "(nat \<Rightarrow> request \<Rightarrow> outcome) \<Rightarrow> string \<Rightarrow> string list \<Rightarrow> pyval list" where
  "fetch_session_data api base_url session_ids =
     all_sessions (fetch_loop api base_url session_ids)"

text \<open>
  Notions used to state what the loop does: the slices it forms, the request issued
  for a slice, and what an outcome adds to the accumulator.
\<close>

definition batches :: "string list \<Rightarrow> string list list" where
  "batches session_ids =
     map (\<lambda>i. take chunk_size (drop i session_ids)) (chunk_starts 0 (length session_ids))"

definition batch_request :: "string \<Rightarrow> string list \<Rightarrow> request" where
  "batch_request base_url chunk =
     \<lparr>req_url = base_url @ ''/wp-json/wp/v2/sessions'', req_include = join '','' chunk\<rparr>"

definition batch_records :: "outcome \<Rightarrow> pyval list" where
  "batch_records out = (case out of Returned sessions \<Rightarrow> sessions | Failed \<Rightarrow> [])"

section \<open>Session normalizer\<close>

definition and_then :: "py_error + 'a \<Rightarrow> ('a \<Rightarrow> py_error + 'b) \<Rightarrow> py_error + 'b" where
  "and_then r f = (case r of Inl e \<Rightarrow> Inl e | Inr v \<Rightarrow> f v)"

text \<open>Truth value of a Python object, as \<^verbatim>\<open>if v\<close> and \<^verbatim>\<open>and\<close> test it.\<close>

definition truthy :: "pyval \<Rightarrow> bool" where
  "truthy v =
     (case v of
        PNone \<Rightarrow> False
      | PBool b \<Rightarrow> b
      | PInt n \<Rightarrow> n \<noteq> 0
      | PStr s \<Rightarrow> s \<noteq> []
      | PList xs \<Rightarrow> xs \<noteq> []
      | PDict kvs \<Rightarrow> kvs \<noteq> [])"

text \<open>\<^verbatim>\<open>d.get(k, default)\<close>: only a dictionary has the method.\<close>

definition py_get :: "pyval \<Rightarrow> string \<Rightarrow> pyval \<Rightarrow> py_error + pyval" where
  "py_get d k dflt =
     (case d of
        PDict kvs \<Rightarrow> Inr (case map_of kvs k of None \<Rightarrow> dflt | Some v \<Rightarrow> v)
      | _ \<Rightarrow> Inl AttributeError)"

text \<open>\<^verbatim>\<open>k in c\<close> for a string \<^verbatim>\<open>k\<close>: key of a dictionary, element of a list,
  substring of a string; the other values are not iterable.\<close>

definition py_in :: "string \<Rightarrow> pyval \<Rightarrow> py_error + bool" where
  "py_in k c =
     (case c of
        PDict kvs \<Rightarrow> Inr (map_of kvs k \<noteq> None)
      | PList xs \<Rightarrow> Inr (PStr k \<in> set xs)
      | PStr s \<Rightarrow> Inr (sublist k s)
      | _ \<Rightarrow> Inl TypeError)"

text \<open>\<^verbatim>\<open>c[k]\<close> for a string \<^verbatim>\<open>k\<close>.\<close>

definition py_item :: "pyval \<Rightarrow> string \<Rightarrow> py_error + pyval" where
  "py_item c k =
     (case c of
        PDict kvs \<Rightarrow> (case map_of kvs k of None \<Rightarrow> Inl KeyError | Some v \<Rightarrow> Inr v)
      | _ \<Rightarrow> Inl TypeError)"

text \<open>The test \<^verbatim>\<open>field in meta and meta[field]\<close>, with the value when it holds.\<close>

definition meta_value :: "pyval \<Rightarrow> string \<Rightarrow> py_error + pyval option" where
  "meta_value meta field =
     and_then (py_in field meta) (\<lambda>present.
       if present
       then and_then (py_item meta field) (\<lambda>v. Inr (if truthy v then Some v else None))
       else Inr None)"

definition speaker_fields :: "string list" where
  "speaker_fields = [''_wcpt_speaker_id'', ''speakers'', ''_wcb_session_speakers'']"

definition location_fields :: "string list" where
  "location_fields = [''_wcpt_track_id'', ''track'', ''location'', ''_wcb_session_track'']"

text \<open>The loop over \<^verbatim>\<open>speaker_fields\<close>: every field that passes the test extends
  \<^verbatim>\<open>speakers\<close>; the loop has no \<^verbatim>\<open>break\<close>.\<close>

fun speakers_loop :: "pyval \<Rightarrow> string list \<Rightarrow> pyval list \<Rightarrow> py_error + pyval list" where
  "speakers_loop meta [] speakers = Inr speakers"
| "speakers_loop meta (field # others) speakers =
     and_then (meta_value meta field) (\<lambda>found.
       case found of
         None \<Rightarrow> speakers_loop meta others speakers
       | Some v \<Rightarrow>
           speakers_loop meta others
             (speakers @ (case v of PList xs \<Rightarrow> xs | _ \<Rightarrow> [v])))"

text \<open>The loop over \<^verbatim>\<open>location_fields\<close>: the first field that passes the test sets
  \<^verbatim>\<open>location\<close> and the loop breaks.\<close>

fun location_loop :: "pyval \<Rightarrow> string list \<Rightarrow> pyval \<Rightarrow> py_error + pyval" where
  "location_loop meta [] location = Inr location"
| "location_loop meta (field # others) location =
     and_then (meta_value meta field) (\<lambda>found.
       case found of
         None \<Rightarrow> location_loop meta others location
       | Some v \<Rightarrow> Inr v)"

subsection \<open>The pattern \<^verbatim>\<open>Speaker[s]?:\s*([^<\n]+)\<close>, ignoring case\<close>

definition lower :: "char \<Rightarrow> char" where
  "lower c =
     (let n = (of_char c :: nat) in if 65 \<le> n \<and> n \<le> 90 then char_of (n + 32) else c)"

text \<open>A literal matched without regard to case; the rest of the text after it.\<close>

fun ci_prefix :: "string \<Rightarrow> string \<Rightarrow> string option" where
  "ci_prefix [] s = Some s"
| "ci_prefix (p # ps) [] = None"
| "ci_prefix (p # ps) (c # cs) = (if lower p = lower c then ci_prefix ps cs else None)"

definition not_stop :: "char \<Rightarrow> bool" where
  "not_stop c = (c \<noteq> CHR ''<'' \<and> c \<noteq> CHR 0x0A)"

text \<open>
  \<^verbatim>\<open>\s*([^<\n]+)\<close> at the start of \<open>u\<close>: the text of the group and the text after
  it. \<^verbatim>\<open>\s*\<close> is greedy; when nothing is left for the group it gives characters back
  one at a time, and the group then is the last white-space character that is not a
  newline.
\<close>

definition match_group :: "string \<Rightarrow> (string \<times> string) option" where
  "match_group u =
     (let ws = takeWhile is_space u;
          rest = dropWhile is_space u;
          g = takeWhile not_stop rest
      in if g \<noteq> [] then Some (g, dropWhile not_stop rest)
         else
           (case dropWhile (\<lambda>w. w = CHR 0x0A) (rev ws) of
              [] \<Rightarrow> None
            | w # earlier \<Rightarrow> Some ([w], drop (Suc (length earlier)) ws @ rest)))"

text \<open>One match attempt of the whole pattern at the start of \<open>s\<close>. After the word,
  an \<^verbatim>\<open>s\<close> is consumed when there is one: leaving it would put it where the colon
  must be.\<close>

definition match_speaker :: "string \<Rightarrow> (string \<times> string) option" where
  "match_speaker s =
     (case ci_prefix ''Speaker'' s of
        None \<Rightarrow> None
      | Some r \<Rightarrow>
          (case (case r of [] \<Rightarrow> r | c # t \<Rightarrow> if lower c = CHR ''s'' then t else r) of
             [] \<Rightarrow> None
           | c # u \<Rightarrow> if c \<noteq> CHR '':'' then None else match_group u))"

text \<open>\<^verbatim>\<open>re.findall\<close>: the matches from left to right, without overlap.\<close>

function findall_speaker :: "string \<Rightarrow> string list" where
  "findall_speaker [] = []"
| "findall_speaker (c # cs) =
     (case match_speaker (c # cs) of
        None \<Rightarrow> findall_speaker cs
      | Some (g, rest) \<Rightarrow> g # findall_speaker rest)"
  by pat_completeness auto
termination
proof (relation "measure length")
  show "wf (measure length)" by simp
next
  fix c :: char and cs :: string
  show "(cs, c # cs) \<in> measure length" by simp
next
  fix c :: char and cs :: string and x2 :: "string \<times> string" and g rest :: string
  assume m: "match_speaker (c # cs) = Some x2" and x2: "(g, rest) = x2"
  have pre: "ci_prefix p s = Some r \<Longrightarrow> length r \<le> length s" for p s r
    by (induction p s rule: ci_prefix.induct) (auto split: if_splits)
  have dw: "length (dropWhile P xs) \<le> length xs" for P and xs :: string
    by (induction xs) auto
  have split_ws: "length (takeWhile P xs) + length (dropWhile P xs) = length xs"
    for P and xs :: string
    by (metis length_append takeWhile_dropWhile_id)
  have grp: "length r \<le> length u" if "match_group u = Some (h, r)" for u h r
  proof (cases "takeWhile not_stop (dropWhile is_space u) = []")
    case False
    then show ?thesis
      using that dw [of not_stop "dropWhile is_space u"] dw [of is_space u]
      by (auto simp: match_group_def Let_def)
  next
    case True
    then show ?thesis
      using that split_ws [of is_space u]
      by (auto simp: match_group_def Let_def split: list.splits)
  qed
  from m x2 obtain r where r: "ci_prefix ''Speaker'' (c # cs) = Some r"
    by (auto simp: match_speaker_def split: option.splits)
  define r' where "r' = (case r of [] \<Rightarrow> r | d # t \<Rightarrow> if lower d = CHR ''s'' then t else r)"
  have r': "length r' \<le> length r"
    by (auto simp: r'_def split: list.splits)
  have "(case r' of [] \<Rightarrow> None | d # u \<Rightarrow> if d \<noteq> CHR '':'' then None else match_group u)
        = Some (g, rest)"
    using m x2 r by (simp add: match_speaker_def r'_def)
  then obtain d u where "r' = d # u" and "match_group u = Some (g, rest)"
    by (cases r') (auto split: if_splits)
  then have "length rest < length (c # cs)"
    using grp [of u g rest] pre [OF r] r' by simp
  then show "(rest, c # cs) \<in> measure length"
    by simp
qed

declare findall_speaker.simps [simp del]

subsection \<open>One record\<close>

text \<open>The part of the loop body under \<^verbatim>\<open>if 'meta' in session\<close> that fills
  \<^verbatim>\<open>speakers\<close>. The session is a dictionary here, or the first statement of the body
  has raised already.\<close>

definition meta_speakers :: "pyval \<Rightarrow> py_error + pyval list" where
  "meta_speakers session =
     and_then (py_in ''meta'' session) (\<lambda>has_meta.
       if has_meta
       then and_then (py_item session ''meta'') (\<lambda>meta. speakers_loop meta speaker_fields [])
       else Inr [])"

text \<open>The fallback on the rendered content. \<^verbatim>\<open>re.findall\<close> needs a string.\<close>

definition content_speakers :: "pyval \<Rightarrow> pyval list \<Rightarrow> py_error + pyval list" where
  "content_speakers session speakers =
     (if speakers \<noteq> [] then Inr speakers
      else
        and_then (py_in ''content'' session) (\<lambda>has_content.
          if has_content
          then
            and_then (py_item session ''content'') (\<lambda>c.
            and_then (py_get c ''rendered'' (PStr '''')) (\<lambda>content.
              case content of
                PStr text \<Rightarrow>
                  (let speaker_matches = findall_speaker text
                   in if speaker_matches \<noteq> []
                      then Inr (map (\<lambda>m. PStr (strip m)) speaker_matches)
                      else Inr speakers)
              | _ \<Rightarrow> Inl TypeError))
          else Inr speakers))"

definition session_location :: "pyval \<Rightarrow> py_error + pyval" where
  "session_location session =
     and_then (py_in ''meta'' session) (\<lambda>has_meta.
       if has_meta
       then and_then (py_item session ''meta'') (\<lambda>meta.
              location_loop meta location_fields (PStr ''Unknown Location''))
       else Inr (PStr ''Unknown Location''))"

text \<open>The body of the loop of \<^verbatim>\<open>extract_session_info\<close> for one raw record: the
  dictionary it appends.\<close>

definition session_info :: "pyval \<Rightarrow> py_error + pyval" where
  "session_info session =
     and_then (py_get session ''title'' (PDict [])) (\<lambda>t.
     and_then (py_get t ''rendered'' (PStr ''Unknown Title'')) (\<lambda>title.
     and_then (meta_speakers session) (\<lambda>speakers0.
     and_then (content_speakers session speakers0) (\<lambda>speakers.
     and_then (session_location session) (\<lambda>location.
     and_then (py_get session ''date'' (PStr '''')) (\<lambda>date_time.
     and_then (py_get session ''id'' PNone) (\<lambda>ident.
       Inr (PDict
         [(''id'', ident),
          (''title'', title),
          (''speakers'', PList (if speakers \<noteq> [] then speakers else [PStr ''Unknown Speaker''])),
          (''location'', location),
          (''datetime'', date_time)]))))))))"

text \<open>An exception in one record ends the whole call.\<close>

fun extract_session_info :: "pyval list \<Rightarrow> py_error + pyval list" where
  "extract_session_info [] = Inr []"
| "extract_session_info (session # session_data) =
     and_then (session_info session) (\<lambda>info.
     and_then (extract_session_info session_data) (\<lambda>sessions. Inr (info # sessions)))"

section \<open>Calendar emitter\<close>

subsection \<open>\<^verbatim>\<open>str\<close> of a value, as a replacement field of an f-string formats it\<close>

definition digit_char :: "nat \<Rightarrow> char" where
  "digit_char d = char_of (48 + d)"

text \<open>The decimal digits of a number.\<close>

fun decimal_nat :: "nat \<Rightarrow> string" where
  "decimal_nat n =
     (if n < 10 then [digit_char n] else decimal_nat (n div 10) @ [digit_char (n mod 10)])"

declare decimal_nat.simps [simp del]

definition decimal_int :: "int \<Rightarrow> string" where
  "decimal_int i = (if i < 0 then CHR ''-'' # decimal_nat (nat (- i)) else decimal_nat (nat i))"

text \<open>
  \<^verbatim>\<open>str\<close> of an integer. CPython 3.11 and later, with the default setting of
  \<^verbatim>\<open>sys.int_max_str_digits\<close>, raises \<^verbatim>\<open>ValueError\<close> when the number has more than 4300
  digits, the sign not counted.
\<close>

definition int_max_str_digits :: nat where
  "int_max_str_digits = 4300"

definition str_int :: "int \<Rightarrow> py_error + string" where
  "str_int i =
     (if int_max_str_digits < length (decimal_nat (nat \<bar>i\<bar>)) then Inl ValueError
      else Inr (decimal_int i))"

definition hex_char :: "nat \<Rightarrow> char" where
  "hex_char d = (if d < 10 then char_of (48 + d) else char_of (87 + d))"

text \<open>\<^verbatim>\<open>str.isprintable\<close> on one character, for code points below 256.\<close>

definition printable :: "char \<Rightarrow> bool" where
  "printable c =
     (let n = (of_char c :: nat) in (32 \<le> n \<and> n < 127) \<or> (161 \<le> n \<and> n \<noteq> 173))"

definition repr_char :: "char \<Rightarrow> char \<Rightarrow> string" where
  "repr_char quote c =
     (if c = quote \<or> c = CHR 0x5C then [CHR 0x5C, c]
      else if c = CHR 0x09 then [CHR 0x5C, CHR ''t'']
      else if c = CHR 0x0A then [CHR 0x5C, CHR ''n'']
      else if c = CHR 0x0D then [CHR 0x5C, CHR ''r'']
      else if printable c then [c]
      else [CHR 0x5C, CHR ''x'', hex_char (of_char c div 16), hex_char (of_char c mod 16)])"

text \<open>\<^verbatim>\<open>repr\<close> of a string: double quotes when the text has a single quote and no
  double quote, single quotes otherwise.\<close>

definition repr_str :: "string \<Rightarrow> string" where
  "repr_str s =
     (let quote = (if CHR 0x27 \<in> set s \<and> CHR 0x22 \<notin> set s then CHR 0x22 else CHR 0x27)
      in quote # concat (map (repr_char quote) s) @ [quote])"

text \<open>The results of a list of conversions, or the first error among them.\<close>

fun all_results :: "(py_error + 'a) list \<Rightarrow> py_error + 'a list" where
  "all_results [] = Inr []"
| "all_results (r # rs) =
     and_then r (\<lambda>x. and_then (all_results rs) (\<lambda>xs. Inr (x # xs)))"

text \<open>\<^verbatim>\<open>repr\<close> of a value: that of a list or of a dictionary takes the \<^verbatim>\<open>repr\<close> of the
  items in order, and an error in one of them is the error of the whole.\<close>

fun py_repr :: "pyval \<Rightarrow> py_error + string" where
  "py_repr PNone = Inr ''None''"
| "py_repr (PBool b) = Inr (if b then ''True'' else ''False'')"
| "py_repr (PInt i) = str_int i"
| "py_repr (PStr s) = Inr (repr_str s)"
| "py_repr (PList xs) =
     and_then (all_results (map py_repr xs)) (\<lambda>rs. Inr (''['' @ join '', '' rs @ '']''))"
| "py_repr (PDict kvs) =
     and_then
       (all_results
          (map (\<lambda>kv. and_then (py_repr (snd kv)) (\<lambda>r. Inr (repr_str (fst kv) @ '': '' @ r)))
             kvs))
       (\<lambda>rs. Inr (''{'' @ join '', '' rs @ ''}''))"

definition py_str :: "pyval \<Rightarrow> py_error + string" where
  "py_str v = (case v of PStr s \<Rightarrow> Inr s | _ \<Rightarrow> py_repr v)"

subsection \<open>The document\<close>

text \<open>\<^verbatim>\<open>sep.join(v)\<close>: the items of a list must be strings; a string is iterated by
  character and a dictionary by key; the other values are not iterable.\<close>

fun str_items :: "pyval list \<Rightarrow> py_error + string list" where
  "str_items [] = Inr []"
| "str_items (PStr s # xs) = and_then (str_items xs) (\<lambda>ss. Inr (s # ss))"
| "str_items (_ # xs) = Inl TypeError"

definition py_join :: "string \<Rightarrow> pyval \<Rightarrow> py_error + string" where
  "py_join sep v =
     (case v of
        PList xs \<Rightarrow> and_then (str_items xs) (\<lambda>ss. Inr (join sep ss))
      | PStr s \<Rightarrow> Inr (join sep (map (\<lambda>c. [c]) s))
      | PDict kvs \<Rightarrow> Inr (join sep (map fst kvs))
      | _ \<Rightarrow> Inl TypeError)"

text \<open>
  \<^verbatim>\<open>session.get('datetime', dflt).replace('-', '').replace(':', '').replace('T', 'T')\<close>:
  only a string has the method \<^verbatim>\<open>replace\<close>.
\<close>

definition timestamp :: "pyval \<Rightarrow> string \<Rightarrow> py_error + string" where
  "timestamp session dflt =
     and_then (py_get session ''datetime'' (PStr dflt)) (\<lambda>v.
       case v of
         PStr s \<Rightarrow>
           Inr (replace (CHR ''T'') ''T'' (replace (CHR '':'') '''' (replace (CHR ''-'') '''' s)))
       | _ \<Rightarrow> Inl AttributeError)"

text \<open>A text of several lines is the list of its lines, each ended by a newline.\<close>

definition unlines :: "string list \<Rightarrow> string" where
  "unlines ls = concat (map (\<lambda>l. l @ [CHR 0x0A]) ls)"

definition header_lines :: "string list" where
  "header_lines =
     [''BEGIN:VCALENDAR'',
      ''VERSION:2.0'',
      ''PRODID:-//WordCamp Favorites//Session Calendar//EN'',
      ''CALSCALE:GREGORIAN'',
      ''METHOD:PUBLISH'',
      '''',
      ''BEGIN:VTIMEZONE'',
      ''TZID:America/Los_Angeles'',
      ''BEGIN:DAYLIGHT'',
      ''TZOFFSETFROM:-0800'',
      ''TZOFFSETTO:-0700'',
      ''TZNAME:PDT'',
      ''DTSTART:20250309T020000'',
      ''RRULE:FREQ=YEARLY;BYMONTH=3;BYDAY=2SU'',
      ''END:DAYLIGHT'',
      ''BEGIN:STANDARD'',
      ''TZOFFSETFROM:-0700'',
      ''TZOFFSETTO:-0800'',
      ''TZNAME:PST'',
      ''DTSTART:20251102T020000'',
      ''RRULE:FREQ=YEARLY;BYMONTH=11;BYDAY=1SU'',
      ''END:STANDARD'',
      ''END:VTIMEZONE'',
      '''']"

text \<open>The lines of the event entry of one session, in the order in which the
  statements of the loop body and the fields of the f-string are evaluated: each field
  is formatted as soon as its expression has its value.\<close>

definition event_lines :: "pyval \<Rightarrow> py_error + string list" where
  "event_lines session =
     and_then (py_item session ''speakers'') (\<lambda>speakers.
     and_then (py_join '', '' speakers) (\<lambda>speaker_list.
     and_then (py_item session ''id'') (\<lambda>ident.
     and_then (py_str ident) (\<lambda>uid.
     and_then (timestamp session ''20250101T120000'') (\<lambda>dtstart.
     and_then (timestamp session ''20250101T130000'') (\<lambda>dtend.
     and_then (py_item session ''title'') (\<lambda>title.
     and_then (py_str title) (\<lambda>summary.
     and_then (py_item session ''location'') (\<lambda>location.
     and_then (py_str location) (\<lambda>place.
       Inr [''BEGIN:VEVENT'',
            ''UID:'' @ uid @ ''@wordcamp-favorites'',
            ''DTSTART;TZID=America/Los_Angeles:'' @ dtstart,
            ''DTEND;TZID=America/Los_Angeles:'' @ dtend,
            ''SUMMARY:'' @ summary,
            ''DESCRIPTION:Speaker(s): '' @ speaker_list,
            ''LOCATION:'' @ place,
            ''END:VEVENT'',
            '''']))))))))))"

text \<open>The loop \<^verbatim>\<open>for session in sessions\<close>, appending to \<^verbatim>\<open>ics_content\<close>.\<close>

fun events_loop :: "pyval list \<Rightarrow> string \<Rightarrow> py_error + string" where
  "events_loop [] ics_content = Inr ics_content"
| "events_loop (session # sessions) ics_content =
     and_then (event_lines session) (\<lambda>ls. events_loop sessions (ics_content @ unlines ls))"

text \<open>The text of the document, as it stands before the file is opened.\<close>

definition ics_document :: "pyval list \<Rightarrow> py_error + string" where
  "ics_document sessions =
     and_then (events_loop sessions (unlines header_lines)) (\<lambda>ics_content.
       Inr (ics_content @ ''END:VCALENDAR''))"

text \<open>
  The file system is a map from file names to contents, and \<open>can_write\<close> is the
  operating system's answer for a file name: whether \<^verbatim>\<open>open(output_file, 'w')\<close> and the
  write that follows succeed. When they do the file holds the document, whatever it
  held before; when they do not the call ends with an \<^verbatim>\<open>OSError\<close>. The file is opened
  only once the whole text has been built. The message printed at the end is console
  output and is left out.
\<close>

definition generate_ics_calendar ::
  "(string \<Rightarrow> bool) \<Rightarrow> pyval list \<Rightarrow> string \<Rightarrow> (string \<rightharpoonup> string)
     \<Rightarrow> py_error + (string \<rightharpoonup> string)" where
  "generate_ics_calendar can_write sessions output_file files =
     and_then (ics_document sessions) (\<lambda>ics_content.
       if can_write output_file then Inr (files(output_file \<mapsto> ics_content))
       else Inl OSError)"

section \<open>Canonical session records and the lines of a document\<close>

text \<open>
  A canonical session record is the dictionary that \<^verbatim>\<open>extract_session_info\<close> appends,
  with the types the record is meant to have: a title, a list of speaker names, a
  location and a start time that are strings. The identifier is any value; it is plain
  when it is not a list or a dictionary and not an integer of more digits than
  \<^verbatim>\<open>str\<close> writes, and \<open>id_text\<close> is what \<^verbatim>\<open>str\<close> writes for it.
\<close>

record canonical =
  cid :: pyval
  ctitle :: string
  cspeakers :: "string list"
  clocation :: string
  cstart :: string

definition to_dict :: "canonical \<Rightarrow> pyval" where
  "to_dict c =
     PDict
       [(''id'', cid c),
        (''title'', PStr (ctitle c)),
        (''speakers'', PList (map PStr (cspeakers c))),
        (''location'', PStr (clocation c)),
        (''datetime'', PStr (cstart c))]"

definition plain_id :: "pyval \<Rightarrow> bool" where
  "plain_id v =
     (case v of
        PInt i \<Rightarrow> length (decimal_nat (nat \<bar>i\<bar>)) \<le> int_max_str_digits
      | PList xs \<Rightarrow> False
      | PDict kvs \<Rightarrow> False
      | _ \<Rightarrow> True)"

definition id_text :: "pyval \<Rightarrow> string" where
  "id_text v = (case py_str v of Inr t \<Rightarrow> t | Inl e \<Rightarrow> [])"

text \<open>The lines of the event entry of a canonical record, written out.\<close>

definition block_lines :: "canonical \<Rightarrow> string list" where
  "block_lines c =
     [''BEGIN:VEVENT'',
      ''UID:'' @ id_text (cid c) @ ''@wordcamp-favorites'',
      ''DTSTART;TZID=America/Los_Angeles:''
        @ replace (CHR ''T'') ''T'' (replace (CHR '':'') '''' (replace (CHR ''-'') '''' (cstart c))),
      ''DTEND;TZID=America/Los_Angeles:''
        @ replace (CHR ''T'') ''T'' (replace (CHR '':'') '''' (replace (CHR ''-'') '''' (cstart c))),
      ''SUMMARY:'' @ ctitle c,
      ''DESCRIPTION:Speaker(s): '' @ join '', '' (cspeakers c),
      ''LOCATION:'' @ clocation c,
      ''END:VEVENT'',
      '''']"

text \<open>No field of the record brings a line break into the document.\<close>

definition single_line :: "canonical \<Rightarrow> bool" where
  "single_line c =
     (CHR 0x0A \<notin> set (id_text (cid c)) \<and>
      CHR 0x0A \<notin> set (ctitle c) \<and>
      list_all (\<lambda>s. CHR 0x0A \<notin> set s) (cspeakers c) \<and>
      CHR 0x0A \<notin> set (clocation c) \<and>
      CHR 0x0A \<notin> set (cstart c))"

text \<open>The lines of a text, and the lines of a document that carry an event
  identifier.\<close>

definition doc_lines :: "string \<Rightarrow> string list" where
  "doc_lines doc = split_on (CHR 0x0A) doc"

definition uid_lines :: "string \<Rightarrow> string list" where
  "uid_lines doc = filter (prefix ''UID:'') (doc_lines doc)"

section \<open>Example inputs\<close>

definition ids_23 :: "string list" where
  "ids_23 =
     [''101'', ''102'', ''103'', ''104'', ''105'', ''106'', ''107'', ''108'', ''109'', ''110'',
      ''111'', ''112'', ''113'', ''114'', ''115'', ''116'', ''117'', ''118'', ''119'', ''120'',
      ''121'', ''122'', ''123'']"

definition example_sessions :: "canonical list" where
  "example_sessions =
     [\<lparr>cid = PInt 7, ctitle = ''Keynote'', cspeakers = [''Alice'', ''Bob''],
       clocation = ''Hall A'', cstart = ''2025-08-27T09:00:00''\<rparr>,
      \<lparr>cid = PInt 8, ctitle = ''Workshop'', cspeakers = [''Carol''],
       clocation = ''Room 2'', cstart = ''2025-08-27T10:30:00''\<rparr>]"

definition example_raw :: pyval where
  "example_raw =
     PDict [(''id'', PInt 7),
            (''title'', PDict [(''rendered'', PStr ''Keynote'')]),
            (''meta'', PDict [(''speakers'', PList [PStr ''Alice'', PStr ''Bob'']),
                              (''track'', PStr ''Hall A'')]),
            (''date'', PStr ''2025-08-27T09:00:00'')]"

section \<open>Properties of the string operations\<close>

lemma split_on_not_Nil: "split_on c s \<noteq> []"
  by (induction s) (auto split: list.splits)

lemma split_on_append: "split_on c (a @ c # b) = split_on c a @ split_on c b"
  by (induction a) (auto split: list.splits simp: split_on_not_Nil)

lemma join_Cons: "ys \<noteq> [] \<Longrightarrow> join sep (x # ys) = x @ sep @ join sep ys"
  by (cases ys) auto

lemma join_push: "join sep ((x # t) # ts) = x # join sep (t # ts)"
  by (cases ts) auto

lemma join_split_on: "join [c] (split_on c s) = s"
proof (induction s)
  case Nil
  show ?case by simp
next
  case (Cons x xs)
  obtain t ts where ts: "split_on c xs = t # ts"
    using split_on_not_Nil [of c xs] by (cases "split_on c xs") auto
  show ?case
  proof (cases "x = c")
    case True
    then show ?thesis using Cons.IH by (simp add: join_Cons split_on_not_Nil)
  next
    case False
    then show ?thesis using Cons.IH ts by (simp add: join_push)
  qed
qed

lemma split_on_no_sep: "t \<in> set (split_on c s) \<Longrightarrow> c \<notin> set t"
  by (induction s arbitrary: t) (auto split: list.splits if_splits)

lemma split_on_no_sep_id: "c \<notin> set t \<Longrightarrow> split_on c t = [t]"
  by (induction t) auto

lemma split_on_join:
  "xs \<noteq> [] \<Longrightarrow> \<forall>t\<in>set xs. c \<notin> set t \<Longrightarrow> split_on c (join [c] xs) = xs"
proof (induction xs)
  case Nil
  then show ?case by simp
next
  case (Cons x xs)
  show ?case
  proof (cases "xs = []")
    case True
    then show ?thesis using Cons.prems by (simp add: split_on_no_sep_id)
  next
    case False
    then have "join [c] (x # xs) = x @ c # join [c] xs"
      by (simp add: join_Cons)
    then show ?thesis using Cons False
      by (simp add: split_on_append split_on_no_sep_id)
  qed
qed

lemma length_split_on: "length (split_on c s) = Suc (count_list s c)"
  by (induction s) (auto split: list.splits simp: split_on_not_Nil)

lemma set_strip: "set (strip s) \<subseteq> set s"
  by (auto simp: strip_def dest!: set_dropWhileD)

lemma strip_Nil: "strip [] = []"
  by (simp add: strip_def)

section \<open>Properties of the fetch loop\<close>

lemma calls_fetch_step:
  "calls (fetch_step api u ids i st) =
     calls st @ [\<lparr>req_url = u, req_include = join '','' (take chunk_size (drop i ids))\<rparr>]"
  by (simp add: fetch_step_def Let_def split: outcome.split)

lemma all_sessions_fetch_step:
  "all_sessions (fetch_step api u ids i st) =
     all_sessions st @ batch_records (api (length (calls st))
        \<lparr>req_url = u, req_include = join '','' (take chunk_size (drop i ids))\<rparr>)"
  by (simp add: fetch_step_def Let_def batch_records_def split: outcome.split)

lemma calls_fold:
  "calls (fold (fetch_step api u ids) starts st) =
     calls st @
     map (\<lambda>i. \<lparr>req_url = u, req_include = join '','' (take chunk_size (drop i ids))\<rparr>) starts"
  by (induction starts arbitrary: st) (simp_all add: calls_fetch_step)

lemma all_sessions_fold:
  "all_sessions (fold (fetch_step api u ids) starts st) =
     all_sessions st @
     concat (map (\<lambda>(k, i). batch_records (api k
        \<lparr>req_url = u, req_include = join '','' (take chunk_size (drop i ids))\<rparr>))
       (enumerate (length (calls st)) starts))"
  by (induction starts arbitrary: st)
     (simp_all add: calls_fetch_step all_sessions_fetch_step)

lemma calls_fetch_loop:
  "calls (fetch_loop api base ids) = map (batch_request base) (batches ids)"
  by (simp add: fetch_loop_def calls_fold batches_def batch_request_def comp_def)

lemma enumerate_map: "enumerate n (map f xs) = map (\<lambda>(k, x). (k, f x)) (enumerate n xs)"
  by (induction xs arbitrary: n) simp_all

lemma fetch_session_data_batches:
  "fetch_session_data api base ids =
     concat (map (\<lambda>(k, chunk). batch_records (api k (batch_request base chunk)))
       (enumerate 0 (batches ids)))"
  by (simp add: fetch_session_data_def fetch_loop_def all_sessions_fold batches_def
      batch_request_def enumerate_map comp_def case_prod_unfold)

lemma concat_chunks_from:
  "concat (map (\<lambda>j. take chunk_size (drop j ids)) (chunk_starts i (length ids))) = drop i ids"
proof (induction i "length ids" rule: chunk_starts.induct)
  case (1 i)
  show ?case
  proof (cases "i < length ids")
    case True
    have glue: "take chunk_size (drop i ids) @ drop (i + chunk_size) ids = drop i ids"
      by (metis append_take_drop_id drop_drop add.commute)
    have "chunk_starts i (length ids) = i # chunk_starts (i + chunk_size) (length ids)"
      using True by (subst chunk_starts.simps) simp
    then show ?thesis using 1 True glue by simp
  next
    case False
    then have "chunk_starts i (length ids) = []"
      by (subst chunk_starts.simps) simp
    then show ?thesis using False by simp
  qed
qed

lemma concat_batches: "concat (batches ids) = ids"
  using concat_chunks_from [of ids 0] by (simp add: batches_def)

lemma chunk_count_step:
  "i < n \<Longrightarrow> (n - i + 10 - 1) div 10 = Suc ((n - (i + 10) + 10 - 1) div (10::nat))"
  by (cases "n - i < 10") (auto simp: div_if)

lemma map_upt_shift:
  "map (\<lambda>k. i + k * c) [0..<Suc m] = i # map (\<lambda>k. i + c + k * (c::nat)) [0..<m]"
  by (induction m) simp_all

lemma chunk_starts_eq:
  "chunk_starts i n =
     map (\<lambda>k. i + k * chunk_size) [0..<(n - i + chunk_size - 1) div chunk_size]"
proof (induction i n rule: chunk_starts.induct)
  case (1 i n)
  show ?case
  proof (cases "i < n")
    case True
    have len: "(n - i + chunk_size - 1) div chunk_size
             = Suc ((n - (i + chunk_size) + chunk_size - 1) div chunk_size)"
      using True chunk_count_step unfolding chunk_size_def by blast
    have unfold: "chunk_starts i n = i # chunk_starts (i + chunk_size) n"
      using True by (subst chunk_starts.simps) simp
    have "chunk_starts (i + chunk_size) n =
       map (\<lambda>k. i + chunk_size + k * chunk_size)
         [0..<(n - (i + chunk_size) + chunk_size - 1) div chunk_size]"
      using 1 True by blast
    then show ?thesis
      by (simp only: unfold len map_upt_shift)
  next
    case False
    then have "(n - i + chunk_size - 1) div chunk_size = 0"
      by (simp add: chunk_size_def)
    moreover have "chunk_starts i n = []"
      using False by (subst chunk_starts.simps) simp
    ultimately show ?thesis by simp
  qed
qed

lemma chunk_starts_less: "j \<in> set (chunk_starts i n) \<Longrightarrow> j < n"
proof (induction i n rule: chunk_starts.induct)
  case (1 i n)
  show ?case
  proof (cases "i < n")
    case True
    then have "chunk_starts i n = i # chunk_starts (i + chunk_size) n"
      by (subst chunk_starts.simps) simp
    then show ?thesis using 1 True by auto
  next
    case False
    then have "chunk_starts i n = []"
      by (subst chunk_starts.simps) simp
    then show ?thesis using 1 by simp
  qed
qed

lemma batches_not_Nil: "chunk \<in> set (batches ids) \<Longrightarrow> chunk \<noteq> []"
  by (auto simp: batches_def chunk_size_def dest: chunk_starts_less)

lemma batches_subset: "chunk \<in> set (batches ids) \<Longrightarrow> set chunk \<subseteq> set ids"
  by (auto simp: batches_def dest: in_set_takeD in_set_dropD)

lemma batches_slices:
  "batches ids = map (\<lambda>k. take 10 (drop (10 * k) ids)) [0..<(length ids + 9) div 10]"
  by (simp add: batches_def chunk_starts_eq chunk_size_def mult.commute add.commute comp_def)

lemma batches_23:
  "length ids = 23 \<Longrightarrow> batches ids = [take 10 ids, take 10 (drop 10 ids), drop 20 ids]"
  by (simp add: batches_def chunk_starts.simps chunk_size_def)

lemma extract_favorite_ids_no_comma:
  "t \<in> set (extract_favorite_ids query_params) \<Longrightarrow> CHR '','' \<notin> set t"
  using set_strip
  by (auto simp: extract_favorite_ids_def split: option.splits list.splits
      dest!: split_on_no_sep)

lemma include_roundtrip:
  assumes "\<forall>t\<in>set ids. CHR '','' \<notin> set t"
  shows "concat (map (\<lambda>r. split_on (CHR '','') (req_include r)) (calls (fetch_loop api base ids)))
         = ids"
proof -
  have "split_on (CHR '','') (req_include (batch_request base chunk)) = chunk"
    if "chunk \<in> set (batches ids)" for chunk
    using that assms batches_not_Nil [OF that] batches_subset [OF that]
      split_on_join [of chunk "CHR '',''"]
    by (auto simp: batch_request_def)
  then have "map (\<lambda>r. split_on (CHR '','') (req_include r)) (map (batch_request base) (batches ids))
             = batches ids"
    by (simp add: map_idI)
  then show ?thesis
    by (simp add: calls_fetch_loop concat_batches)
qed

text \<open>When the path ends with the segment and the character before the segment is
  not one of its characters, the segment alone is removed.\<close>

lemma rstrip_exact:
  assumes "base = [] \<or> last base \<notin> set chars" and "set seg \<subseteq> set chars"
  shows "rstrip chars (base @ seg) = base"
proof -
  have "dropWhile (\<lambda>c. c \<in> set chars) (rev seg @ rev base)
        = dropWhile (\<lambda>c. c \<in> set chars) (rev base)"
    using assms(2) by (intro dropWhile_append2) auto
  moreover have "dropWhile (\<lambda>c. c \<in> set chars) (rev base) = rev base"
    using assms(1) by (cases "rev base") (auto simp: last_rev [symmetric] simp del: last_rev)
  ultimately show ?thesis
    by (simp add: rstrip_def)
qed

lemma base_url_exact:
  assumes "path p = base @ ''/schedule/''"
    and "base = [] \<or> last base \<notin> set ''/schedule/''"
  shows "get_wordcamp_base_url p = scheme p @ ''://'' @ netloc p @ base"
  using assms rstrip_exact [of base "''/schedule/''" "''/schedule/''"]
  by (simp add: get_wordcamp_base_url_def)

section \<open>URL interpreter: the claims\<close>

text \<open>
  C1. The claim: for every schedule URL, \<^verbatim>\<open>get_wordcamp_base_url\<close> removes exactly the
  literal trailing segment \<^verbatim>\<open>/schedule/\<close> from the path and no character of the true
  base path. The code calls \<^verbatim>\<open>rstrip('/schedule/')\<close>, which removes every trailing
  character that occurs in the segment. For the URL
  \<^verbatim>\<open>https://example.org/wcus/schedule/?fav-sessions=12,34\<close> the path is
  \<^verbatim>\<open>/wcus/schedule/\<close> and the result is \<^verbatim>\<open>https://example.org/w\<close>, where the literal
  removal gives \<^verbatim>\<open>https://example.org/wcus\<close>.
\<close>

theorem get_wordcamp_base_url_overstrips:
  "get_wordcamp_base_url
     \<lparr>scheme = ''https'', netloc = ''example.org'', path = ''/wcus/schedule/'',
      params = '''', query = ''fav-sessions=12,34'', fragment = ''''\<rparr>
   = ''https://example.org/w''"
  by (simp add: get_wordcamp_base_url_def rstrip_def)

text \<open>
  C8. When the first value of the parameter \<^verbatim>\<open>fav-sessions\<close> is \<^verbatim>\<open>12, 34 ,56\<close>,
  \<^verbatim>\<open>extract_favorite_ids\<close> returns exactly \<^verbatim>\<open>["12", "34", "56"]\<close>: the value is split
  at the commas, each token is trimmed, and the order is kept. This holds whatever
  other values and other parameters the query string has.
\<close>

theorem extract_favorite_ids_example:
  "extract_favorite_ids ((''fav-sessions'', ''12, 34 ,56'' # others) # query_params)
   = [''12'', ''34'', ''56'']"
  by (simp add: extract_favorite_ids_def strip_def is_space_def)

text \<open>
  C9. The claim: the returned sequence has no duplicate identifier, even when an
  identifier occurs twice in the parameter. It fails for \<^verbatim>\<open>?fav-sessions=12,12\<close>: the
  code has no step that removes duplicates.
\<close>

theorem extract_favorite_ids_repeats:
  "\<not> distinct (extract_favorite_ids [(''fav-sessions'', [''12,12''])])"
  by (simp add: extract_favorite_ids_def strip_def is_space_def)

text \<open>
  C9, amended. When the first value of the parameter is the comma-separated list of
  the tokens \<open>tokens\<close> (at least one token, none of them containing a comma), the result
  is the list of the trimmed tokens, one entry for each occurrence, in the order of the
  URL. A repeated token is therefore repeated in the result.
\<close>

theorem extract_favorite_ids_tokens:
  assumes "map_of query_params ''fav-sessions'' = Some (join '','' tokens # others)"
    and "tokens \<noteq> []"
    and "\<forall>t\<in>set tokens. CHR '','' \<notin> set t"
  shows "extract_favorite_ids query_params = map strip tokens"
  using assms split_on_join [of tokens "CHR '',''"]
  by (simp add: extract_favorite_ids_def)

theorem extract_favorite_ids_tokens_witness:
  "map_of [(''fav-sessions'', [''12,12''])] ''fav-sessions'' = Some (join '','' [''12'', ''12''] # [])
   \<and> [''12'', ''12''] \<noteq> []
   \<and> CHR '','' \<notin> set ''12''
   \<and> extract_favorite_ids [(''fav-sessions'', [''12,12''])] = [''12'', ''12'']"
proof -
  have h1: "map_of [(''fav-sessions'', [''12,12''])] ''fav-sessions''
            = Some (join '','' [''12'', ''12''] # [])"
    by simp
  have h2: "[''12'', ''12''] \<noteq> ([] :: string list)" by simp
  have h3: "\<forall>t\<in>set [''12'', ''12'']. CHR '','' \<notin> set t" by simp
  have "map strip [''12'', ''12''] = [''12'', ''12'']"
    by (simp add: strip_def is_space_def)
  then show ?thesis
    using extract_favorite_ids_tokens [OF h1 h2 h3] h1 h2 h3 by simp
qed

text \<open>
  C10. When the first value of the parameter has an empty token between two commas or
  ends with a comma, the empty string is one of the returned identifiers. The
  identifiers then reach the API as they are: splitting the \<^verbatim>\<open>include\<close> parameters of
  the requests at the commas gives back the returned sequence, empty strings included.
\<close>

theorem empty_tokens_kept:
  assumes "map_of query_params ''fav-sessions'' = Some (v # others)"
    and "sublist '',,'' v \<or> suffix '','' v"
  shows "'''' \<in> set (extract_favorite_ids query_params) \<and>
         concat (map (\<lambda>r. split_on (CHR '','') (req_include r))
           (calls (fetch_loop api base_url (extract_favorite_ids query_params))))
         = extract_favorite_ids query_params"
proof -
  have "[] \<in> set (split_on (CHR '','') v)"
    using assms(2)
  proof
    assume "sublist '',,'' v"
    then obtain a b where "v = a @ CHR '','' # CHR '','' # b"
      by (auto simp: sublist_def)
    then show ?thesis
      by (simp add: split_on_append)
  next
    assume "suffix '','' v"
    then obtain a where "v = a @ CHR '','' # []"
      by (auto simp: suffix_def)
    then show ?thesis
      by (simp add: split_on_append)
  qed
  then have "strip [] \<in> set (map strip (split_on (CHR '','') v))"
    by (simp only: set_map) (rule imageI)
  then have "'''' \<in> set (extract_favorite_ids query_params)"
    using assms(1) by (simp add: extract_favorite_ids_def strip_Nil)
  then show ?thesis
    using include_roundtrip [of "extract_favorite_ids query_params"]
      extract_favorite_ids_no_comma by blast
qed

theorem empty_tokens_kept_witness:
  "map_of [(''fav-sessions'', [''12,,34''])] ''fav-sessions'' = Some (''12,,34'' # [])
   \<and> (sublist '',,'' ''12,,34'' \<or> suffix '','' ''12,,34'')
   \<and> extract_favorite_ids [(''fav-sessions'', [''12,,34''])] = [''12'', '''', ''34'']
   \<and> '''' \<in> set (extract_favorite_ids [(''fav-sessions'', [''12,,34''])])
   \<and> map req_include
        (calls (fetch_loop (\<lambda>k r. Failed) ''https://example.org/2025''
           (extract_favorite_ids [(''fav-sessions'', [''12,,34''])])))
      = [''12,,34'']"
proof -
  have h1: "map_of [(''fav-sessions'', [''12,,34''])] ''fav-sessions'' = Some (''12,,34'' # [])"
    by simp
  have "''12,,34'' = ''12'' @ '',,'' @ ''34''"
    by simp
  then have "sublist '',,'' ''12,,34''"
    unfolding sublist_def by blast
  then have h2: "sublist '',,'' ''12,,34'' \<or> suffix '','' ''12,,34''"
    by blast
  have ids: "extract_favorite_ids [(''fav-sessions'', [''12,,34''])] = [''12'', '''', ''34'']"
    by (simp add: extract_favorite_ids_def strip_def is_space_def)
  have reqs: "map req_include
        (calls (fetch_loop (\<lambda>k r. Failed) ''https://example.org/2025'' [''12'', '''', ''34'']))
      = [''12,,34'']"
    by (simp add: calls_fetch_loop batches_def chunk_starts.simps chunk_size_def
        batch_request_def)
  have "'''' \<in> set (extract_favorite_ids [(''fav-sessions'', [''12,,34''])])"
    using empty_tokens_kept [OF h1 h2] by blast
  then show ?thesis
    using h1 h2 ids reqs by simp
qed

section \<open>Session fetcher: the claims\<close>

text \<open>
  C6. The slices that the loop of \<^verbatim>\<open>fetch_session_data\<close> forms are the consecutive
  slices of ten identifiers of the input list (the last one possibly shorter): put end
  to end they give the list back, so every position of the list is in exactly one
  slice. One request is issued for each slice, in order. For a list of 23 identifiers
  there are exactly 3 requests, for slices of 10, 10 and 3 identifiers.
\<close>

theorem fetch_batches:
  "concat (batches ids) = ids \<and>
   batches ids = map (\<lambda>k. take 10 (drop (10 * k) ids)) [0..<(length ids + 9) div 10] \<and>
   calls (fetch_loop api base_url ids) = map (batch_request base_url) (batches ids) \<and>
   (length ids = 23 \<longrightarrow>
      batches ids = [take 10 ids, take 10 (drop 10 ids), drop 20 ids] \<and>
      map length (batches ids) = [10, 10, 3] \<and>
      length (calls (fetch_loop api base_url ids)) = 3)"
proof -
  have "concat (batches ids) = ids"
    by (rule concat_batches)
  moreover have
    "batches ids = map (\<lambda>k. take 10 (drop (10 * k) ids)) [0..<(length ids + 9) div 10]"
    by (rule batches_slices)
  moreover have
    "calls (fetch_loop api base_url ids) = map (batch_request base_url) (batches ids)"
    by (rule calls_fetch_loop)
  moreover have "batches ids = [take 10 ids, take 10 (drop 10 ids), drop 20 ids] \<and>
      map length (batches ids) = [10, 10, 3] \<and>
      length (calls (fetch_loop api base_url ids)) = 3" if "length ids = 23"
    using that by (simp add: batches_23 calls_fetch_loop)
  ultimately show ?thesis by blast
qed

theorem fetch_batches_witness:
  "length ids_23 = 23 \<and>
   batches ids_23 =
     [ [''101'', ''102'', ''103'', ''104'', ''105'', ''106'', ''107'', ''108'', ''109'', ''110''],
      [''111'', ''112'', ''113'', ''114'', ''115'', ''116'', ''117'', ''118'', ''119'', ''120''],
      [''121'', ''122'', ''123'']] \<and>
   length (calls (fetch_loop (\<lambda>k r. Failed) ''https://example.org/2025'' ids_23)) = 3"
proof -
  have h: "length ids_23 = 23"
    by (simp add: ids_23_def)
  have "batches ids_23 = [take 10 ids_23, take 10 (drop 10 ids_23), drop 20 ids_23] \<and>
        length (calls (fetch_loop (\<lambda>k r. Failed) ''https://example.org/2025'' ids_23)) = 3"
    using fetch_batches [of ids_23 "\<lambda>k r. Failed" "''https://example.org/2025''"] h by blast
  then show ?thesis
    using h by (simp add: ids_23_def)
qed

text \<open>
  C7. Whatever the outcomes of the calls are, \<^verbatim>\<open>fetch_session_data\<close> returns: its
  result is the concatenation, in order, of the records of the calls that returned,
  and a failed call adds nothing. A failure does not stop the loop, since the requests
  issued are those of all the slices in every case. When every call fails the result
  is empty.
\<close>

theorem fetch_session_data_partial:
  "fetch_session_data api base_url ids =
     concat (map (\<lambda>(k, chunk).
         case api k (batch_request base_url chunk) of
           Returned sessions \<Rightarrow> sessions
         | Failed \<Rightarrow> [])
       (enumerate 0 (batches ids))) \<and>
   calls (fetch_loop api base_url ids) = map (batch_request base_url) (batches ids) \<and>
   ((\<forall>k < length (batches ids). api k (batch_request base_url (batches ids ! k)) = Failed)
      \<longrightarrow> fetch_session_data api base_url ids = [])"
proof -
  have eq: "fetch_session_data api base_url ids =
     concat (map (\<lambda>(k, chunk).
         case api k (batch_request base_url chunk) of
           Returned sessions \<Rightarrow> sessions
         | Failed \<Rightarrow> [])
       (enumerate 0 (batches ids)))"
    by (simp add: fetch_session_data_batches batch_records_def)
  have "fetch_session_data api base_url ids = []"
    if all: "\<forall>k < length (batches ids). api k (batch_request base_url (batches ids ! k)) = Failed"
  proof -
    have "(case api k (batch_request base_url chunk) of
             Returned sessions \<Rightarrow> sessions | Failed \<Rightarrow> []) = []"
      if "(k, chunk) \<in> set (enumerate 0 (batches ids))" for k chunk
      using that all by (auto simp: in_set_enumerate_eq)
    then show ?thesis
      unfolding eq by auto
  qed
  then show ?thesis
    using eq calls_fetch_loop by blast
qed

theorem fetch_session_data_partial_witness:
  "length (batches [''12'', ''34'']) = 1 \<and>
   (\<lambda>k r. Failed) 0 (batch_request ''https://example.org/2025'' (batches [''12'', ''34''] ! 0))
     = Failed \<and>
   fetch_session_data (\<lambda>k r. Failed) ''https://example.org/2025'' [''12'', ''34''] = []"
proof -
  have h: "\<forall>k < length (batches [''12'', ''34'']).
      (\<lambda>k r. Failed) k (batch_request ''https://example.org/2025'' (batches [''12'', ''34''] ! k))
      = Failed"
    by simp
  have "fetch_session_data (\<lambda>k r. Failed) ''https://example.org/2025'' [''12'', ''34''] = []"
    using fetch_session_data_partial
      [of "\<lambda>k r. Failed" "''https://example.org/2025''" "[''12'', ''34'']"] h
    by blast
  then show ?thesis
    by (simp add: batches_slices)
qed

section \<open>Properties of the normalizer\<close>

lemma meta_value_truthy: "meta_value meta field = Inr (Some v) \<Longrightarrow> truthy v"
  by (auto simp: meta_value_def and_then_def split: sum.splits if_splits)

lemma location_loop_result:
  "location_loop meta fs d = Inr l \<Longrightarrow> l = d \<or> truthy l"
proof (induction fs)
  case Nil
  then show ?case by simp
next
  case (Cons f fs)
  then show ?case
    by (auto simp: and_then_def split: sum.splits option.splits dest: meta_value_truthy)
qed

lemma session_location_not_empty:
  "session_location session = Inr l \<Longrightarrow> l \<noteq> PStr ''''"
  by (auto simp: session_location_def and_then_def truthy_def split: sum.splits if_splits
      dest!: location_loop_result)

lemma session_info_shape:
  assumes "session_info raw = Inr s"
  shows "\<exists>ident title speakers location start t.
           s = PDict [(''id'', ident), (''title'', title), (''speakers'', PList speakers),
                      (''location'', location), (''datetime'', start)] \<and>
           speakers \<noteq> [] \<and> location \<noteq> PStr '''' \<and>
           py_get raw ''title'' (PDict []) = Inr t \<and>
           py_get t ''rendered'' (PStr ''Unknown Title'') = Inr title"
  using assms
  by (auto simp: session_info_def and_then_def split: sum.splits
      dest: session_location_not_empty)

lemma extract_session_info_length:
  "extract_session_info raws = Inr sessions \<Longrightarrow> length sessions = length raws"
  by (induction raws arbitrary: sessions) (auto simp: and_then_def split: sum.splits)

lemma extract_session_info_nth:
  "extract_session_info raws = Inr sessions \<Longrightarrow> i < length raws \<Longrightarrow>
   session_info (raws ! i) = Inr (sessions ! i)"
proof (induction raws arbitrary: sessions i)
  case Nil
  then show ?case by simp
next
  case (Cons r raws)
  then show ?case
    by (cases i) (auto simp: and_then_def split: sum.splits)
qed

section \<open>Properties of the emitter\<close>

lemma str_items_strings: "str_items (map PStr ss) = Inr ss"
  by (induction ss) (simp_all add: and_then_def)

lemma timestamp_canonical:
  "timestamp (to_dict c) dflt =
     Inr (replace (CHR ''T'') ''T'' (replace (CHR '':'') '''' (replace (CHR ''-'') '''' (cstart c))))"
  by (simp add: timestamp_def to_dict_def py_get_def and_then_def)

lemma py_str_plain: "plain_id v \<Longrightarrow> py_str v = Inr (id_text v)"
  by (cases v) (auto simp: plain_id_def id_text_def py_str_def str_int_def)

lemma id_text_int: "plain_id (PInt i) \<Longrightarrow> id_text (PInt i) = decimal_int i"
  by (auto simp: plain_id_def id_text_def py_str_def str_int_def)

lemma py_str_string: "py_str (PStr s) = Inr s"
  by (simp add: py_str_def)

lemma event_lines_canonical:
  assumes "plain_id (cid c)"
  shows "event_lines (to_dict c) = Inr (block_lines c)"
proof -
  have ident: "py_item (to_dict c) ''id'' = Inr (cid c)"
    and title: "py_item (to_dict c) ''title'' = Inr (PStr (ctitle c))"
    and location: "py_item (to_dict c) ''location'' = Inr (PStr (clocation c))"
    and speakers: "py_item (to_dict c) ''speakers'' = Inr (PList (map PStr (cspeakers c)))"
    by (simp_all add: to_dict_def py_item_def)
  have joined: "py_join '', '' (PList (map PStr (cspeakers c))) = Inr (join '', '' (cspeakers c))"
    by (simp add: py_join_def str_items_strings and_then_def)
  show ?thesis
    by (simp add: event_lines_def timestamp_canonical ident title location speakers joined
        py_str_plain [OF assms] py_str_string and_then_def block_lines_def)
qed

lemma unlines_append: "unlines (a @ b) = unlines a @ unlines b"
  by (simp add: unlines_def)

lemma events_loop_canonical:
  "\<forall>c\<in>set cs. plain_id (cid c) \<Longrightarrow>
   events_loop (map to_dict cs) acc = Inr (acc @ unlines (concat (map block_lines cs)))"
  by (induction cs arbitrary: acc)
     (simp_all add: event_lines_canonical and_then_def unlines_append unlines_def)

lemma ics_document_canonical:
  "\<forall>c\<in>set cs. plain_id (cid c) \<Longrightarrow>
   ics_document (map to_dict cs) =
     Inr (unlines (header_lines @ concat (map block_lines cs)) @ ''END:VCALENDAR'')"
  by (simp add: ics_document_def events_loop_canonical and_then_def unlines_append)

lemma doc_lines_unlines:
  "\<forall>l\<in>set ls. CHR 0x0A \<notin> set l \<Longrightarrow> doc_lines (unlines ls @ t) = ls @ doc_lines t"
proof (induction ls)
  case Nil
  then show ?case by (simp add: unlines_def)
next
  case (Cons l ls)
  have "doc_lines (l @ CHR 0x0A # (unlines ls @ t)) = l # doc_lines (unlines ls @ t)"
    using Cons.prems by (simp add: doc_lines_def split_on_append split_on_no_sep_id)
  then show ?case
    using Cons by (simp add: unlines_def)
qed

lemma set_replace: "set (replace c new s) \<subseteq> set s \<union> set new"
  by (auto simp: replace_def split: if_splits)

lemma newline_join:
  "\<forall>s\<in>set ss. CHR 0x0A \<notin> set s \<Longrightarrow> CHR 0x0A \<notin> set sep \<Longrightarrow> CHR 0x0A \<notin> set (join sep ss)"
  by (induction sep ss rule: join.induct) auto

lemma newline_stamp:
  "CHR 0x0A \<notin> set s \<Longrightarrow>
   CHR 0x0A \<notin> set (replace (CHR ''T'') ''T'' (replace (CHR '':'') '''' (replace (CHR ''-'') '''' s)))"
  using set_replace [of "CHR ''T''" "''T''" "replace (CHR '':'') '''' (replace (CHR ''-'') '''' s)"]
    set_replace [of "CHR '':''" "''''" "replace (CHR ''-'') '''' s"]
    set_replace [of "CHR ''-''" "''''" s]
  by auto

lemma block_lines_single:
  "single_line c \<Longrightarrow> l \<in> set (block_lines c) \<Longrightarrow> CHR 0x0A \<notin> set l"
  using newline_stamp [of "cstart c"] newline_join [of "cspeakers c" "'', ''"]
  by (auto simp: single_line_def block_lines_def list_all_iff)

lemma header_lines_single: "l \<in> set header_lines \<Longrightarrow> CHR 0x0A \<notin> set l"
  by (auto simp: header_lines_def)

lemma doc_lines_canonical:
  assumes "\<forall>c\<in>set cs. single_line c"
  shows "doc_lines (unlines (header_lines @ concat (map block_lines cs)) @ ''END:VCALENDAR'')
         = header_lines @ concat (map block_lines cs) @ [''END:VCALENDAR'']"
proof -
  have "\<forall>l\<in>set (header_lines @ concat (map block_lines cs)). CHR 0x0A \<notin> set l"
    using assms by (auto dest: header_lines_single block_lines_single)
  then have "doc_lines (unlines (header_lines @ concat (map block_lines cs)) @ ''END:VCALENDAR'')
      = (header_lines @ concat (map block_lines cs)) @ doc_lines ''END:VCALENDAR''"
    by (rule doc_lines_unlines)
  then show ?thesis
    by (simp add: doc_lines_def)
qed

lemma count_begin_event:
  "count_list (concat (map block_lines cs)) ''BEGIN:VEVENT'' = length cs"
  by (induction cs) (simp_all add: block_lines_def)

lemma count_begin_timezone:
  "count_list (concat (map block_lines cs)) ''BEGIN:VTIMEZONE'' = 0"
  by (induction cs) (simp_all add: block_lines_def)

lemma uid_of_blocks:
  "filter (prefix ''UID:'') (concat (map block_lines cs))
   = map (\<lambda>c. ''UID:'' @ id_text (cid c) @ ''@wordcamp-favorites'') cs"
  by (induction cs) (simp_all add: block_lines_def)

lemma uid_inj: "(''UID:'' @ s @ ''@wordcamp-favorites'' = ''UID:'' @ t @ ''@wordcamp-favorites'') = (s = t)"
proof -
  have "(s @ ''@wordcamp-favorites'' = t @ ''@wordcamp-favorites'') = (s = t)"
    by (rule append_same_eq)
  then show ?thesis
    by (simp only: same_append_eq)
qed

lemma distinct_uids:
  "distinct (map (\<lambda>c. ''UID:'' @ id_text (cid c) @ ''@wordcamp-favorites'') cs)
   \<longleftrightarrow> distinct (map (\<lambda>c. id_text (cid c)) cs)"
proof -
  have "inj_on (\<lambda>s. ''UID:'' @ s @ ''@wordcamp-favorites'') A" for A
    by (rule inj_onI) (simp only: uid_inj)
  then have "distinct (map (\<lambda>s. ''UID:'' @ s @ ''@wordcamp-favorites'') (map (\<lambda>c. id_text (cid c)) cs))
      \<longleftrightarrow> distinct (map (\<lambda>c. id_text (cid c)) cs)"
    by (simp only: distinct_map simp_thms)
  then show ?thesis
    by (simp only: map_map comp_def)
qed

lemma of_char_digit: "d < 10 \<Longrightarrow> of_char (digit_char d) = 48 + d"
  by (simp add: digit_char_def)

lemma digits_value: "foldl (\<lambda>a c. 10 * a + (of_char c - 48)) 0 (decimal_nat n) = n"
proof (induction n rule: decimal_nat.induct)
  case (1 n)
  show ?case
  proof (cases "n < 10")
    case True
    then show ?thesis
      by (subst decimal_nat.simps) (simp add: of_char_digit)
  next
    case False
    then have "foldl (\<lambda>a c. 10 * a + (of_char c - 48)) 0 (decimal_nat (n div 10)) = n div 10"
      using 1 by simp
    then show ?thesis
      using False by (subst decimal_nat.simps) (simp add: of_char_digit)
  qed
qed

lemma decimal_nat_inj: "decimal_nat m = decimal_nat n \<Longrightarrow> m = n"
  by (metis digits_value)

lemma decimal_nat_no_minus: "CHR ''-'' \<notin> set (decimal_nat n)"
proof (induction n rule: decimal_nat.induct)
  case (1 n)
  have digit: "digit_char d \<noteq> CHR ''-''" if "d < 10" for d
  proof
    assume "digit_char d = CHR ''-''"
    then have "of_char (digit_char d) = (of_char (CHR ''-'') :: nat)" by simp
    then show False using that by (simp add: of_char_digit)
  qed
  show ?case
  proof (cases "n < 10")
    case True
    then show ?thesis
      using digit [of n] by (subst decimal_nat.simps) auto
  next
    case False
    then show ?thesis
      using 1 digit [of "n mod 10"] by (subst decimal_nat.simps) auto
  qed
qed

lemma decimal_int_inj: "decimal_int i = decimal_int j \<Longrightarrow> i = j"
proof -
  assume eq: "decimal_int i = decimal_int j"
  have head: "CHR ''-'' # s \<noteq> decimal_nat n" for n s
    using decimal_nat_no_minus [of n] by (metis list.set_intros(1))
  show ?thesis
  proof (cases "i < 0")
    case True
    have "j < 0"
    proof (rule ccontr)
      assume "\<not> j < 0"
      then have "CHR ''-'' # decimal_nat (nat (- i)) = decimal_nat (nat j)"
        using eq True by (simp add: decimal_int_def)
      then show False using head by blast
    qed
    then show ?thesis
      using eq True decimal_nat_inj [of "nat (- i)" "nat (- j)"] by (simp add: decimal_int_def)
  next
    case False
    have "\<not> j < 0"
    proof
      assume "j < 0"
      then have "CHR ''-'' # decimal_nat (nat (- j)) = decimal_nat (nat i)"
        using eq False by (simp add: decimal_int_def)
      then show False using head by blast
    qed
    then show ?thesis
      using eq False decimal_nat_inj [of "nat i" "nat j"] by (simp add: decimal_int_def)
  qed
qed

lemma distinct_int_ids:
  assumes "\<forall>c\<in>set cs. plain_id (cid c)"
    and "\<forall>c\<in>set cs. \<exists>i. cid c = PInt i" and "distinct (map cid cs)"
  shows "distinct (map (\<lambda>c. id_text (cid c)) cs)"
proof -
  have "inj_on id_text (set (map cid cs))"
  proof (rule inj_onI)
    fix x y
    assume x: "x \<in> set (map cid cs)" and y: "y \<in> set (map cid cs)"
      and eq: "id_text x = id_text y"
    obtain i where i: "x = PInt i" using x assms(2) by auto
    obtain j where j: "y = PInt j" using y assms(2) by auto
    have "plain_id (PInt i)" and "plain_id (PInt j)"
      using x y i j assms(1) by auto
    then show "x = y"
      using eq i j decimal_int_inj [of i j] by (simp add: id_text_int)
  qed
  then have "distinct (map id_text (map cid cs))"
    using assms(3) by (simp only: distinct_map simp_thms)
  then show ?thesis
    by (simp only: map_map comp_def)
qed

lemma replace_delete: "replace c [] s = filter (\<lambda>x. x \<noteq> c) s"
  by (induction s) (simp_all add: replace_def)

lemma replace_same: "replace c [c] s = s"
  by (induction s) (simp_all add: replace_def)

text \<open>The limit is met: a one followed by \<open>k\<close> zeros has \<open>k + 1\<close> digits, more than the
  limit from 4300 zeros on.\<close>

lemma decimal_nat_times_ten: "0 < n \<Longrightarrow> decimal_nat (10 * n) = decimal_nat n @ [digit_char 0]"
  by (subst decimal_nat.simps) simp

lemma length_decimal_power: "length (decimal_nat (10 ^ k)) = Suc k"
proof (induction k)
  case 0
  show ?case by (subst decimal_nat.simps) simp
next
  case (Suc k)
  then show ?case by (simp add: decimal_nat_times_ten)
qed

lemma str_int_over_limit: "int_max_str_digits \<le> k \<Longrightarrow> str_int (10 ^ k) = Inl ValueError"
proof -
  assume limit: "int_max_str_digits \<le> k"
  have "nat \<bar>(10 :: int) ^ k\<bar> = (10 :: nat) ^ k"
    by (simp add: nat_power_eq)
  then have "length (decimal_nat (nat \<bar>(10 :: int) ^ k\<bar>)) = Suc k"
    by (simp only: length_decimal_power)
  then have "int_max_str_digits < length (decimal_nat (nat \<bar>(10 :: int) ^ k\<bar>))"
    using limit by simp
  then show ?thesis
    by (simp only: str_int_def if_True)
qed

lemma generate_ics_calendar_document:
  "ics_document sessions = Inr doc \<Longrightarrow>
   generate_ics_calendar can_write sessions output_file files =
     (if can_write output_file then Inr (files(output_file \<mapsto> doc)) else Inl OSError)"
  by (simp add: generate_ics_calendar_def and_then_def)

section \<open>Session normalizer: the claims\<close>

text \<open>
  C2. The claim: when the metadata has several of the speaker fields with non-empty
  values, the speakers come from the first of them only. The loop over the speaker
  fields has no \<^verbatim>\<open>break\<close>, unlike the loop over the location fields next to it: every
  field with a non-empty value extends the list. For a record whose metadata has
  \<^verbatim>\<open>speakers = "Alice"\<close> and \<^verbatim>\<open>_wcb_session_speakers = "Bob"\<close> the speakers are
  \<^verbatim>\<open>["Alice", "Bob"]\<close>, where the claim gives \<^verbatim>\<open>["Alice"]\<close>.
\<close>

theorem speakers_from_every_field:
  "session_info
     (PDict [(''id'', PInt 7),
             (''title'', PDict [(''rendered'', PStr ''Keynote'')]),
             (''meta'', PDict [(''speakers'', PStr ''Alice''),
                               (''_wcb_session_speakers'', PStr ''Bob'')])])
   = Inr (PDict [(''id'', PInt 7),
                 (''title'', PStr ''Keynote''),
                 (''speakers'', PList [PStr ''Alice'', PStr ''Bob'']),
                 (''location'', PStr ''Unknown Location''),
                 (''datetime'', PStr '''')])"
  by (simp add: session_info_def meta_speakers_def content_speakers_def session_location_def
      speaker_fields_def location_fields_def and_then_def py_get_def py_in_def py_item_def
      meta_value_def truthy_def)

text \<open>
  C4. The claim: in every record that \<^verbatim>\<open>extract_session_info\<close> produces, the list of
  speakers is not empty and the title and the location are not the empty string. It
  fails for the title: a raw record whose rendered title is the empty string keeps it,
  since the placeholder is the default of \<^verbatim>\<open>get\<close> and stands in for an absent key only.
\<close>

theorem empty_title_kept:
  "extract_session_info [PDict [(''id'', PInt 7), (''title'', PDict [(''rendered'', PStr '''')])]]
   = Inr [PDict [(''id'', PInt 7),
                 (''title'', PStr ''''),
                 (''speakers'', PList [PStr ''Unknown Speaker'']),
                 (''location'', PStr ''Unknown Location''),
                 (''datetime'', PStr '''')]]"
  by (simp add: session_info_def meta_speakers_def content_speakers_def session_location_def
      and_then_def py_get_def py_in_def py_item_def)

text \<open>
  C4, amended. When \<^verbatim>\<open>extract_session_info\<close> returns, it returns one record for each
  raw record, in order. Each is a dictionary with the keys \<^verbatim>\<open>id\<close>, \<^verbatim>\<open>title\<close>,
  \<^verbatim>\<open>speakers\<close>, \<^verbatim>\<open>location\<close> and \<^verbatim>\<open>datetime\<close>; its list of speakers is not empty and
  its location is not the empty string. Its title is what
  \<^verbatim>\<open>session.get('title', {}).get('rendered', 'Unknown Title')\<close> gives: the placeholder
  when the rendered title is absent, the rendered title as received otherwise.
\<close>

theorem extract_session_info_invariant:
  assumes "extract_session_info raws = Inr sessions"
  shows "length sessions = length raws \<and>
     (\<forall>i < length raws.
        \<exists>ident title speakers location start t.
           sessions ! i =
             PDict [(''id'', ident), (''title'', title), (''speakers'', PList speakers),
                    (''location'', location), (''datetime'', start)] \<and>
           speakers \<noteq> [] \<and> location \<noteq> PStr '''' \<and>
           py_get (raws ! i) ''title'' (PDict []) = Inr t \<and>
           py_get t ''rendered'' (PStr ''Unknown Title'') = Inr title)"
  using assms extract_session_info_length [OF assms]
    session_info_shape [OF extract_session_info_nth [OF assms]]
  by blast

theorem extract_session_info_invariant_witness:
  "extract_session_info [example_raw] = Inr [to_dict (hd example_sessions)] \<and>
   length [to_dict (hd example_sessions)] = length [example_raw] \<and>
   (\<exists>ident title speakers location start.
      [to_dict (hd example_sessions)] ! 0 =
        PDict [(''id'', ident), (''title'', title), (''speakers'', PList speakers),
               (''location'', location), (''datetime'', start)] \<and>
      speakers \<noteq> [] \<and> location \<noteq> PStr '''')"
proof -
  have h: "extract_session_info [example_raw] = Inr [to_dict (hd example_sessions)]"
    by (simp add: example_raw_def example_sessions_def to_dict_def session_info_def
        meta_speakers_def content_speakers_def session_location_def speaker_fields_def
        location_fields_def and_then_def py_get_def py_in_def py_item_def meta_value_def
        truthy_def)
  have zero: "0 < length [example_raw]"
    by simp
  show ?thesis
    using extract_session_info_invariant [OF h] h zero by blast
qed

section \<open>Calendar emitter: the claims\<close>

text \<open>
  C3. The claim: a session whose start time is the empty string gets the default start
  \<^verbatim>\<open>20250101T120000\<close> and the default end \<^verbatim>\<open>20250101T130000\<close>. The defaults are those of
  \<^verbatim>\<open>session.get('datetime', ...)\<close> and stand in for an absent key only, while
  \<^verbatim>\<open>extract_session_info\<close> always sets the key, to the empty string when the raw
  record has no date. So for every canonical record both timestamps are the start
  time without \<^verbatim>\<open>-\<close> and \<^verbatim>\<open>:\<close>, whatever the default, and for the empty start time
  both are empty: a raw record without a date gives the lines \<^verbatim>\<open>DTSTART;TZID=America/Los_Angeles:\<close>
  and \<^verbatim>\<open>DTEND;TZID=America/Los_Angeles:\<close>.
\<close>

theorem empty_start_gives_empty_timestamps:
  "timestamp (to_dict c) dflt = Inr (filter (\<lambda>x. x \<noteq> CHR ''-'' \<and> x \<noteq> CHR '':'') (cstart c)) \<and>
   extract_session_info
     [PDict [(''id'', PInt 7), (''title'', PDict [(''rendered'', PStr ''Keynote'')])]]
   = Inr [to_dict \<lparr>cid = PInt 7, ctitle = ''Keynote'', cspeakers = [''Unknown Speaker''],
                  clocation = ''Unknown Location'', cstart = ''''\<rparr>] \<and>
   event_lines (to_dict \<lparr>cid = PInt 7, ctitle = ''Keynote'', cspeakers = [''Unknown Speaker''],
                  clocation = ''Unknown Location'', cstart = ''''\<rparr>)
   = Inr [''BEGIN:VEVENT'',
          ''UID:7@wordcamp-favorites'',
          ''DTSTART;TZID=America/Los_Angeles:'',
          ''DTEND;TZID=America/Los_Angeles:'',
          ''SUMMARY:Keynote'',
          ''DESCRIPTION:Speaker(s): Unknown Speaker'',
          ''LOCATION:Unknown Location'',
          ''END:VEVENT'',
          '''']"
proof -
  have "timestamp (to_dict c) dflt
        = Inr (filter (\<lambda>x. x \<noteq> CHR ''-'' \<and> x \<noteq> CHR '':'') (cstart c))"
    by (simp add: timestamp_canonical replace_delete replace_same conj_commute)
  moreover have "extract_session_info
     [PDict [(''id'', PInt 7), (''title'', PDict [(''rendered'', PStr ''Keynote'')])]]
   = Inr [to_dict \<lparr>cid = PInt 7, ctitle = ''Keynote'', cspeakers = [''Unknown Speaker''],
                  clocation = ''Unknown Location'', cstart = ''''\<rparr>]"
    by (simp add: to_dict_def session_info_def meta_speakers_def content_speakers_def
        session_location_def and_then_def py_get_def py_in_def py_item_def)
  moreover have "event_lines (to_dict \<lparr>cid = PInt 7, ctitle = ''Keynote'',
                  cspeakers = [''Unknown Speaker''],
                  clocation = ''Unknown Location'', cstart = ''''\<rparr>)
   = Inr [''BEGIN:VEVENT'',
          ''UID:7@wordcamp-favorites'',
          ''DTSTART;TZID=America/Los_Angeles:'',
          ''DTEND;TZID=America/Los_Angeles:'',
          ''SUMMARY:Keynote'',
          ''DESCRIPTION:Speaker(s): Unknown Speaker'',
          ''LOCATION:Unknown Location'',
          ''END:VEVENT'',
          '''']"
    by code_simp
  ultimately show ?thesis by blast
qed

text \<open>
  C5. The claim: for every sequence of \<open>N\<close> canonical records the document has exactly
  \<open>N\<close> event blocks, exactly one timezone block and pairwise distinct event
  identifiers. It fails twice for the two records below: they have the same
  identifier, so the two \<^verbatim>\<open>UID\<close> lines are equal, and the title of the first has a line
  break followed by \<^verbatim>\<open>BEGIN:VEVENT\<close>, which is written as it is, so the document has
  three lines that open an event.
\<close>

theorem ics_document_corrupted:
  "map_sum id (\<lambda>doc. (count_list (doc_lines doc) ''BEGIN:VEVENT'', uid_lines doc))
     (ics_document
        [to_dict \<lparr>cid = PInt 7, ctitle = ''Keynote\<newline>BEGIN:VEVENT'', cspeakers = [''Alice''],
                  clocation = ''Hall A'', cstart = ''2025-08-27T09:00:00''\<rparr>,
         to_dict \<lparr>cid = PInt 7, ctitle = ''Keynote'', cspeakers = [''Alice''],
                  clocation = ''Hall A'', cstart = ''2025-08-27T09:00:00''\<rparr>])
   = Inr (3, [''UID:7@wordcamp-favorites'', ''UID:7@wordcamp-favorites''])"
  by code_simp

text \<open>
  C5, amended. For every sequence of canonical records whose identifiers are plain
  (no list or dictionary, and no integer of more than 4300 digits), the text of the
  document is produced.
  When no field of the records has a line break, the document has as many lines
  \<^verbatim>\<open>BEGIN:VEVENT\<close> as there are records, exactly one line \<^verbatim>\<open>BEGIN:VTIMEZONE\<close>, and its
  \<^verbatim>\<open>UID\<close> lines are, in order, those of the records: the identifier as \<^verbatim>\<open>str\<close> writes
  it, followed by \<^verbatim>\<open>@wordcamp-favorites\<close>. These lines are pairwise distinct exactly when
  the written identifiers are, in particular when the identifiers are pairwise distinct
  integers.
\<close>

theorem ics_document_blocks:
  assumes "\<forall>c\<in>set cs. plain_id (cid c)"
  shows "\<exists>doc. ics_document (map to_dict cs) = Inr doc \<and>
     ((\<forall>c\<in>set cs. single_line c) \<longrightarrow>
        count_list (doc_lines doc) ''BEGIN:VEVENT'' = length cs \<and>
        count_list (doc_lines doc) ''BEGIN:VTIMEZONE'' = 1 \<and>
        uid_lines doc = map (\<lambda>c. ''UID:'' @ id_text (cid c) @ ''@wordcamp-favorites'') cs \<and>
        (distinct (uid_lines doc) \<longleftrightarrow> distinct (map (\<lambda>c. id_text (cid c)) cs)) \<and>
        ((\<forall>c\<in>set cs. \<exists>i. cid c = PInt i) \<and> distinct (map cid cs)
           \<longrightarrow> distinct (uid_lines doc)))"
proof -
  define doc where
    "doc = unlines (header_lines @ concat (map block_lines cs)) @ ''END:VCALENDAR''"
  have doc: "ics_document (map to_dict cs) = Inr doc"
    using assms by (simp only: doc_def ics_document_canonical)
  have rest: "count_list (doc_lines doc) ''BEGIN:VEVENT'' = length cs \<and>
        count_list (doc_lines doc) ''BEGIN:VTIMEZONE'' = 1 \<and>
        uid_lines doc = map (\<lambda>c. ''UID:'' @ id_text (cid c) @ ''@wordcamp-favorites'') cs \<and>
        (distinct (uid_lines doc) \<longleftrightarrow> distinct (map (\<lambda>c. id_text (cid c)) cs)) \<and>
        ((\<forall>c\<in>set cs. \<exists>i. cid c = PInt i) \<and> distinct (map cid cs)
           \<longrightarrow> distinct (uid_lines doc))"
    if single: "\<forall>c\<in>set cs. single_line c"
  proof -
    have ls: "doc_lines doc = header_lines @ concat (map block_lines cs) @ [''END:VCALENDAR'']"
      unfolding doc_def using single by (rule doc_lines_canonical)
    have h1: "count_list header_lines ''BEGIN:VEVENT'' = 0"
      by (simp add: header_lines_def)
    have h2: "count_list header_lines ''BEGIN:VTIMEZONE'' = 1"
      by (simp add: header_lines_def)
    have h3: "filter (prefix ''UID:'') header_lines = []"
      by (simp add: header_lines_def)
    have events: "count_list (doc_lines doc) ''BEGIN:VEVENT'' = length cs"
      by (simp add: ls h1 count_begin_event)
    have zone: "count_list (doc_lines doc) ''BEGIN:VTIMEZONE'' = 1"
      by (simp add: ls h2 count_begin_timezone)
    have uids: "uid_lines doc = map (\<lambda>c. ''UID:'' @ id_text (cid c) @ ''@wordcamp-favorites'') cs"
      by (simp add: uid_lines_def ls h3 uid_of_blocks)
    have dist: "distinct (uid_lines doc) \<longleftrightarrow> distinct (map (\<lambda>c. id_text (cid c)) cs)"
      by (simp only: uids distinct_uids)
    have ints: "distinct (uid_lines doc)"
      if "(\<forall>c\<in>set cs. \<exists>i. cid c = PInt i) \<and> distinct (map cid cs)"
      using that dist distinct_int_ids [OF assms] by blast
    show ?thesis
      using events zone uids dist ints by blast
  qed
  show ?thesis
    using doc rest by blast
qed

theorem ics_document_blocks_witness:
  "\<exists>doc. ics_document (map to_dict example_sessions) = Inr doc \<and>
     count_list (doc_lines doc) ''BEGIN:VEVENT'' = 2 \<and>
     count_list (doc_lines doc) ''BEGIN:VTIMEZONE'' = 1 \<and>
     uid_lines doc = [''UID:7@wordcamp-favorites'', ''UID:8@wordcamp-favorites''] \<and>
     distinct (uid_lines doc)"
proof -
  have seven: "id_text (PInt 7) = ''7''" and eight: "id_text (PInt 8) = ''8''"
    by code_simp+
  have p7: "plain_id (PInt 7)" and p8: "plain_id (PInt 8)"
    by code_simp+
  have plain: "\<forall>c\<in>set example_sessions. plain_id (cid c)"
    by (simp add: example_sessions_def p7 p8)
  have single: "\<forall>c\<in>set example_sessions. single_line c"
    by (simp add: example_sessions_def single_line_def seven eight)
  have ints: "(\<forall>c\<in>set example_sessions. \<exists>i. cid c = PInt i) \<and> distinct (map cid example_sessions)"
    by (simp add: example_sessions_def)
  obtain doc where doc: "ics_document (map to_dict example_sessions) = Inr doc"
    and events: "count_list (doc_lines doc) ''BEGIN:VEVENT'' = length example_sessions"
    and zone: "count_list (doc_lines doc) ''BEGIN:VTIMEZONE'' = 1"
    and uids: "uid_lines doc =
        map (\<lambda>c. ''UID:'' @ id_text (cid c) @ ''@wordcamp-favorites'') example_sessions"
    and dist: "distinct (uid_lines doc)"
    using ics_document_blocks [OF plain] single ints by blast
  have "length example_sessions = 2"
    by (simp add: example_sessions_def)
  moreover have "map (\<lambda>c. ''UID:'' @ id_text (cid c) @ ''@wordcamp-favorites'') example_sessions
      = [''UID:7@wordcamp-favorites'', ''UID:8@wordcamp-favorites'']"
    by (simp add: example_sessions_def seven eight)
  ultimately show ?thesis
    using doc events zone uids dist by auto
qed

end
